theory Spec2Isabelle
  imports Main "HOL-Library.AList" "HOL-Library.Sublist"
begin

section \<open>Python values and exceptions\<close>

text \<open>
  Exceptions of the Python runtime that the modelled code can raise.  \<open>ValueError\<close> carries
  the text that \<open>str(e)\<close> returns, because \<open>_extract_pool\<close> compares it; \<open>OtherError\<close>
  stands for every exception class that no \<open>except\<close> clause of the program names
  (connection errors, RPC errors, file errors).
\<close>

datatype py_error =
    KeyError
  | IndexError
  | TypeError
  | AttributeError
  | AssertionError
  | ValueError string
  | OtherError string

text \<open>Sequencing of fallible pure steps: the first exception ends the computation.\<close>

definition ebind :: "py_error + 'a \<Rightarrow> ('a \<Rightarrow> py_error + 'b) \<Rightarrow> py_error + 'b" where
  "ebind m f = (case m of Inl e \<Rightarrow> Inl e | Inr x \<Rightarrow> f x)"

section \<open>The bribe submission script: \<open>process_bribe_csv\<close>\<close>

text \<open>
  A row yielded by \<open>csv.DictReader\<close>: a dict from the header's column names to the cell
  of that column; a cell is \<open>None\<close> when the line is shorter than the header.
  A Python dict is an association list in insertion order whose first binding of a key
  is the dict's value for it; \<open>d[k] = v\<close> is \<open>AList.update k v d\<close> (an existing key keeps
  its place, a new key goes to the end).
\<close>

type_synonym cell = "string option"
type_synonym csv_row = "(string \<times> cell) list"
type_synonym 'f bribes = "(string \<times> (cell \<times> 'f) list) list"

text \<open>\<open>bribe["column"]\<close>: \<open>KeyError\<close> when the header has no such column.\<close>

definition row_getitem :: "csv_row \<Rightarrow> string \<Rightarrow> py_error + cell" where
  "row_getitem bribe k = (case map_of bribe k of None \<Rightarrow> Inl KeyError | Some c \<Rightarrow> Inr c)"

text \<open>
  \<open>float(x)\<close>.  The reading of a decimal string as a float is the parameter \<open>parse\<close>
  (\<open>None\<close> where Python raises \<open>ValueError\<close>); \<open>float(None)\<close> raises \<open>TypeError\<close>.
\<close>

definition py_float :: "(string \<Rightarrow> 'f option) \<Rightarrow> cell \<Rightarrow> py_error + 'f" where
  "py_float parse c =
     (case c of
        None \<Rightarrow> Inl TypeError
      | Some s \<Rightarrow> (case parse s of None \<Rightarrow> Inl (ValueError s) | Some v \<Rightarrow> Inr v))"

text \<open>\<open>bribes[platform]\<close> on the dict with the string keys \<open>"aura"\<close> and \<open>"balancer"\<close>.\<close>

definition bribes_getitem :: "'f bribes \<Rightarrow> cell \<Rightarrow> py_error + (cell \<times> 'f) list" where
  "bribes_getitem bribes p =
     (case p of
        None \<Rightarrow> Inl KeyError
      | Some k \<Rightarrow> (case map_of bribes k of None \<Rightarrow> Inl KeyError | Some d \<Rightarrow> Inr d))"

text \<open>
  The body of the loop,
  \<^verbatim>\<open>bribes[bribe["platform"]][bribe["target"]] = float(bribe["amount"])\<close>.
  Python evaluates the right-hand side first, then the subscripted object, then the key.
  The inner dict is mutated in place, so the outer dict keeps its keys and their order.
\<close>

definition bribe_step :: "(string \<Rightarrow> 'f option) \<Rightarrow> 'f bribes \<Rightarrow> csv_row \<Rightarrow> py_error + 'f bribes" where
  "bribe_step parse bribes bribe =
     ebind (row_getitem bribe ''amount'') (\<lambda>a.
     ebind (py_float parse a) (\<lambda>v.
     ebind (row_getitem bribe ''platform'') (\<lambda>p.
     ebind (bribes_getitem bribes p) (\<lambda>inner.
     ebind (row_getitem bribe ''target'') (\<lambda>t.
     Inr (AList.update (the p) (AList.update t v inner) bribes))))))"

fun bribe_loop :: "(string \<Rightarrow> 'f option) \<Rightarrow> 'f bribes \<Rightarrow> csv_row list \<Rightarrow> py_error + 'f bribes" where
  "bribe_loop parse bribes [] = Inr bribes"
| "bribe_loop parse bribes (bribe # rest) =
     ebind (bribe_step parse bribes bribe) (\<lambda>bribes'. bribe_loop parse bribes' rest)"

text \<open>
  \<open>process_bribe_csv(csv_file)\<close>.  \<open>open_csv\<close> is \<open>csv.DictReader(open(csv_file))\<close>: the
  rows of the file, or the exception of opening or reading it.
\<close>

definition process_bribe_csv ::
  "(string \<Rightarrow> py_error + csv_row list) \<Rightarrow> (string \<Rightarrow> 'f option) \<Rightarrow> string \<Rightarrow> py_error + 'f bribes" where
  "process_bribe_csv open_csv parse csv_file =
     ebind (open_csv csv_file) (\<lambda>bribe_csv.
       bribe_loop parse [(''aura'', []), (''balancer'', [])] bribe_csv)"



subsection \<open>Well-formed rows\<close>

text \<open>
  A row that has the three columns, names one of the two platforms and carries an amount
  that \<open>float\<close> can read; the accessors below read such a row.
\<close>

definition row_ok :: "(string \<Rightarrow> 'f option) \<Rightarrow> csv_row \<Rightarrow> bool" where
  "row_ok parse r \<longleftrightarrow>
     (case (map_of r ''amount'', map_of r ''platform'', map_of r ''target'') of
        (Some (Some a), Some (Some p), Some t) \<Rightarrow>
          parse a \<noteq> None \<and> (p = ''aura'' \<or> p = ''balancer'')
      | _ \<Rightarrow> False)"

definition row_platform :: "csv_row \<Rightarrow> string" where
  "row_platform r = the (the (map_of r ''platform''))"
definition row_target :: "csv_row \<Rightarrow> cell" where
  "row_target r = the (map_of r ''target'')"
definition row_amount :: "(string \<Rightarrow> 'f option) \<Rightarrow> csv_row \<Rightarrow> 'f" where
  "row_amount parse r = the (parse (the (the (map_of r ''amount''))))"

text \<open>The outer dict has exactly the keys \<open>"aura"\<close> and \<open>"balancer"\<close>, in this order.\<close>

definition keys_ok :: "'f bribes \<Rightarrow> bool" where
  "keys_ok bs \<longleftrightarrow> map fst bs = [''aura'', ''balancer'']"

text \<open>The inner dict stored under a platform.\<close>

definition inner :: "'f bribes \<Rightarrow> string \<Rightarrow> (cell \<times> 'f) list" where
  "inner bs p = (case map_of bs p of None \<Rightarrow> [] | Some d \<Rightarrow> d)"

text \<open>The rows that write the entry \<open>bribes[p][t]\<close>.\<close>

definition same_key :: "string \<Rightarrow> cell \<Rightarrow> csv_row \<Rightarrow> bool" where
  "same_key p t r \<longleftrightarrow> row_platform r = p \<and> row_target r = t"

text \<open>
  A reading of unsigned decimal integers (the float of \<open>"250"\<close> is 250.0), and a file of
  three rows whose first and last row share platform and target.
\<close>

definition digits_value :: "string \<Rightarrow> nat option" where
  "digits_value s =
     (if s \<noteq> [] \<and> list_all (\<lambda>c. 48 \<le> (of_char c :: nat) \<and> (of_char c :: nat) \<le> 57) s
      then Some (foldl (\<lambda>n c. 10 * n + (of_char c - 48)) 0 s) else None)"

definition demo_rows :: "csv_row list" where
  "demo_rows =
     [[(''target'', Some ''0xA''), (''platform'', Some ''aura''), (''amount'', Some ''100'')],
      [(''target'', Some ''0xB''), (''platform'', Some ''balancer''), (''amount'', Some ''7'')],
      [(''target'', Some ''0xA''), (''platform'', Some ''aura''), (''amount'', Some ''250'')]]"

subsection \<open>Properties of \<open>process_bribe_csv\<close>\<close>

lemma bribe_step_ok:
  assumes "row_ok parse r" "keys_ok bs"
  shows "bribe_step parse bs r =
    Inr (AList.update (row_platform r) (AList.update (row_target r) (row_amount parse r) (inner bs (row_platform r))) bs)"
  using assms
  unfolding row_ok_def keys_ok_def bribe_step_def ebind_def row_getitem_def py_float_def
    bribes_getitem_def row_platform_def row_target_def row_amount_def inner_def
  by (cases bs; cases "tl bs") (auto split: option.splits)

lemma keys_ok_update:
  "keys_ok bs \<Longrightarrow> p = ''aura'' \<or> p = ''balancer'' \<Longrightarrow> keys_ok (AList.update p d bs)"
  unfolding keys_ok_def by (auto simp: AList.update_keys)

lemma row_ok_platform: "row_ok parse r \<Longrightarrow> row_platform r = ''aura'' \<or> row_platform r = ''balancer''"
  unfolding row_ok_def row_platform_def by (auto split: option.splits)

lemma inner_update:
  "inner (AList.update p d bs) q = (if q = p then d else inner bs q)"
  unfolding inner_def by (simp add: AList.update_conv')

lemma bribe_loop_ok:
  assumes "\<forall>r \<in> set rows. row_ok parse r" "keys_ok bs"
  shows "\<exists>bs'. bribe_loop parse bs rows = Inr bs' \<and> keys_ok bs' \<and>
     (\<forall>p t. map_of (inner bs' p) t =
        (if filter (same_key p t) rows = [] then map_of (inner bs p) t
         else Some (row_amount parse (last (filter (same_key p t) rows)))))"
  using assms
proof (induction rows arbitrary: bs)
  case Nil
  then show ?case by simp
next
  case (Cons r rows)
  let ?bs1 = "AList.update (row_platform r) (AList.update (row_target r) (row_amount parse r) (inner bs (row_platform r))) bs"
  have rk: "row_ok parse r" and rest: "\<forall>r \<in> set rows. row_ok parse r" using Cons.prems by simp_all
  have st: "bribe_step parse bs r = Inr ?bs1" using rk Cons.prems(2) by (rule bribe_step_ok)
  have k1: "keys_ok ?bs1" by (rule keys_ok_update[OF Cons.prems(2) row_ok_platform[OF rk]])
  from Cons.IH[OF rest k1] obtain bs' where
    l: "bribe_loop parse ?bs1 rows = Inr bs'" and k: "keys_ok bs'" and
    m: "\<And>p t. map_of (inner bs' p) t =
        (if filter (same_key p t) rows = [] then map_of (inner ?bs1 p) t
         else Some (row_amount parse (last (filter (same_key p t) rows))))" by blast
  have "bribe_loop parse bs (r # rows) = Inr bs'" using st l by (simp add: ebind_def)
  moreover have "map_of (inner bs' p) t =
        (if filter (same_key p t) (r # rows) = [] then map_of (inner bs p) t
         else Some (row_amount parse (last (filter (same_key p t) (r # rows)))))" for p t
    by (simp add: m inner_update AList.update_conv' same_key_def)
  ultimately show ?case using k by blast
qed

lemma process_bribe_csv_ok:
  assumes "open_csv f = Inr rows" "\<forall>r \<in> set rows. row_ok parse r"
  shows "\<exists>bs. process_bribe_csv open_csv parse f = Inr bs \<and> keys_ok bs \<and>
     (\<forall>p t. map_of (inner bs p) t =
        (if filter (same_key p t) rows = [] then None
         else Some (row_amount parse (last (filter (same_key p t) rows)))))"
proof -
  have k0: "keys_ok ([(''aura'', []), (''balancer'', [])] :: 'a bribes)"
    by (simp add: keys_ok_def)
  have i0: "map_of (inner ([(''aura'', []), (''balancer'', [])] :: 'a bribes) p) t = None" for p t
    by (simp add: inner_def)
  have "process_bribe_csv open_csv parse f = bribe_loop parse [(''aura'', []), (''balancer'', [])] rows"
    using assms(1) by (simp add: process_bribe_csv_def ebind_def)
  moreover from bribe_loop_ok[OF assms(2) k0] obtain bs' where
    "bribe_loop parse [(''aura'', []), (''balancer'', [])] rows = Inr bs'" "keys_ok bs'"
    "\<And>p t. map_of (inner bs' p) t =
        (if filter (same_key p t) rows = [] then map_of (inner [(''aura'', []), (''balancer'', [])] p) t
         else Some (row_amount parse (last (filter (same_key p t) rows))))" by blast
  ultimately show ?thesis unfolding i0 by auto
qed


lemma keys_ok_shape: "keys_ok bs \<Longrightarrow> \<exists>a b. bs = [(''aura'', a), (''balancer'', b)]"
  unfolding keys_ok_def by (cases bs; cases "tl bs") auto

text \<open>
  Claim C6, as amended.  For every CSV that can be read, whose rows have the columns
  target, platform and amount, whose platform is \<open>"aura"\<close> or \<open>"balancer"\<close> and whose
  amounts \<open>float\<close> can read, \<open>process_bribe_csv\<close> returns a dict with exactly the keys
  \<open>"aura"\<close> and \<open>"balancer"\<close>; each row's target is mapped under its platform to the
  amount of the last row that has the same platform and target (the row's own amount when
  no later row shares both), and the inner dicts have no other keys.
\<close>

theorem process_bribe_csv_maps_last_row:
  assumes "open_csv csv_file = Inr rows"
    and "\<forall>r \<in> set rows. row_ok parse r"
  shows "\<exists>a b. process_bribe_csv open_csv parse csv_file = Inr [(''aura'', a), (''balancer'', b)] \<and>
     (\<forall>r \<in> set rows.
        map_of (if row_platform r = ''aura'' then a else b) (row_target r) =
          Some (row_amount parse (last (filter (same_key (row_platform r) (row_target r)) rows)))) \<and>
     (\<forall>t. (t \<in> fst ` set a \<longleftrightarrow> (\<exists>r \<in> set rows. same_key ''aura'' t r)) \<and>
          (t \<in> fst ` set b \<longleftrightarrow> (\<exists>r \<in> set rows. same_key ''balancer'' t r)))"
proof -
  from process_bribe_csv_ok[of open_csv csv_file rows parse, OF assms] obtain bs where
    r: "process_bribe_csv open_csv parse csv_file = Inr bs" and k: "keys_ok bs" and
    m: "\<And>p t. map_of (inner bs p) t =
        (if filter (same_key p t) rows = [] then None
         else Some (row_amount parse (last (filter (same_key p t) rows))))" by blast
  from keys_ok_shape[OF k] obtain a b where bs: "bs = [(''aura'', a), (''balancer'', b)]" by blast
  have ia: "inner bs ''aura'' = a" and ib: "inner bs ''balancer'' = b"
    by (simp_all add: bs inner_def)
  have rows: "map_of (if row_platform r = ''aura'' then a else b) (row_target r) =
          Some (row_amount parse (last (filter (same_key (row_platform r) (row_target r)) rows)))"
    if "r \<in> set rows" for r
  proof -
    have "row_ok parse r" using assms(2) that by blast
    then have pl: "row_platform r = ''aura'' \<or> row_platform r = ''balancer''"
      by (rule row_ok_platform)
    have ne: "filter (same_key (row_platform r) (row_target r)) rows \<noteq> []"
      using that by (auto simp: filter_empty_conv same_key_def)
    have "map_of (inner bs (row_platform r)) (row_target r) =
      Some (row_amount parse (last (filter (same_key (row_platform r) (row_target r)) rows)))"
      using ne by (simp add: m)
    then show ?thesis using pl ia ib by auto
  qed
  have dom: "(t \<in> fst ` set (inner bs p)) \<longleftrightarrow> (\<exists>r \<in> set rows. same_key p t r)" for p t
  proof -
    have "(t \<in> fst ` set (inner bs p)) \<longleftrightarrow> map_of (inner bs p) t \<noteq> None"
      by (simp add: map_of_eq_None_iff)
    also have "\<dots> \<longleftrightarrow> filter (same_key p t) rows \<noteq> []"
      by (simp add: m)
    also have "\<dots> \<longleftrightarrow> (\<exists>r \<in> set rows. same_key p t r)"
      by (auto simp: filter_empty_conv)
    finally show ?thesis .
  qed
  have "process_bribe_csv open_csv parse csv_file = Inr [(''aura'', a), (''balancer'', b)]"
    using r bs by simp
  moreover have "\<forall>r \<in> set rows.
        map_of (if row_platform r = ''aura'' then a else b) (row_target r) =
          Some (row_amount parse (last (filter (same_key (row_platform r) (row_target r)) rows)))"
    using rows by blast
  moreover have "\<forall>t. (t \<in> fst ` set a \<longleftrightarrow> (\<exists>r \<in> set rows. same_key ''aura'' t r)) \<and>
          (t \<in> fst ` set b \<longleftrightarrow> (\<exists>r \<in> set rows. same_key ''balancer'' t r))"
    using dom[of _ "''aura''"] dom[of _ "''balancer''"] unfolding ia ib by blast
  ultimately show ?thesis by blast
qed



lemma demo_rows_ok: "list_all (row_ok digits_value) demo_rows"
  by (simp add: demo_rows_def row_ok_def digits_value_def)

lemma demo_rows_split:
  "\<exists>r0 r1 r2. demo_rows = [r0, r1, r2] \<and>
     row_platform r0 = ''aura'' \<and> row_target r0 = Some ''0xA'' \<and> row_amount digits_value r0 = 100 \<and>
     row_platform r1 = ''balancer'' \<and> row_target r1 = Some ''0xB'' \<and> row_amount digits_value r1 = 7 \<and>
     row_platform r2 = ''aura'' \<and> row_target r2 = Some ''0xA'' \<and> row_amount digits_value r2 = 250"
  by (simp add: demo_rows_def row_platform_def row_target_def row_amount_def digits_value_def)

theorem process_bribe_csv_maps_last_row_witness:
  "list_all (row_ok digits_value) demo_rows \<and>
   (\<exists>a b. process_bribe_csv (\<lambda>_. Inr demo_rows) digits_value ''current.csv'' =
        Inr [(''aura'', a), (''balancer'', b)] \<and>
      map_of a (Some ''0xA'') = Some 250 \<and> map_of b (Some ''0xB'') = Some 7 \<and>
      fst ` set a = {Some ''0xA''} \<and> fst ` set b = {Some ''0xB''})"
proof -
  have ok: "\<forall>r \<in> set demo_rows. row_ok digits_value r"
    using demo_rows_ok by (simp add: list_all_iff)
  from process_bribe_csv_maps_last_row[of "\<lambda>_. Inr demo_rows" "''current.csv''" demo_rows digits_value, OF refl ok]
  obtain a b where
    r: "process_bribe_csv (\<lambda>_. Inr demo_rows) digits_value ''current.csv'' = Inr [(''aura'', a), (''balancer'', b)]"
    and m: "\<forall>r \<in> set demo_rows.
        map_of (if row_platform r = ''aura'' then a else b) (row_target r) =
          Some (row_amount digits_value (last (filter (same_key (row_platform r) (row_target r)) demo_rows)))"
    and d: "\<forall>t. (t \<in> fst ` set a \<longleftrightarrow> (\<exists>r \<in> set demo_rows. same_key ''aura'' t r)) \<and>
          (t \<in> fst ` set b \<longleftrightarrow> (\<exists>r \<in> set demo_rows. same_key ''balancer'' t r))"
    by blast
  from demo_rows_split obtain r0 r1 r2 where
    rows: "demo_rows = [r0, r1, r2]" and
    f: "row_platform r0 = ''aura''" "row_target r0 = Some ''0xA''"
       "row_platform r1 = ''balancer''" "row_target r1 = Some ''0xB''"
       "row_platform r2 = ''aura''" "row_target r2 = Some ''0xA''" and
    am: "row_amount digits_value r1 = 7" "row_amount digits_value r2 = 250"
    by blast
  have va: "map_of a (Some ''0xA'') = Some 250"
    using m[rule_format, of r2] by (simp add: rows f am same_key_def)
  have vb: "map_of b (Some ''0xB'') = Some 7"
    using m[rule_format, of r1] by (simp add: rows f am same_key_def)
  have da: "(t \<in> fst ` set a) = (t = Some ''0xA'')"
    and db: "(t \<in> fst ` set b) = (t = Some ''0xB'')" for t
    using d[rule_format, of t] by (auto simp: rows f same_key_def)
  have k: "fst ` set a = {Some ''0xA''}" "fst ` set b = {Some ''0xB''}"
    using da db by blast+
  show ?thesis using r va vb k demo_rows_ok by blast
qed

text \<open>
  Claim C6 as stated fails where two rows share platform and target: the first row of
  \<open>demo_rows\<close> has amount 100, and its target is mapped to 250, the amount of the third row.
\<close>

theorem process_bribe_csv_each_row_counterexample:
  "list_all (row_ok digits_value) demo_rows \<and>
   process_bribe_csv (\<lambda>_. Inr demo_rows) digits_value ''current.csv'' =
     Inr [(''aura'', [(Some ''0xA'', 250)]), (''balancer'', [(Some ''0xB'', 7)])] \<and>
   row_platform (demo_rows ! 0) = ''aura'' \<and>
   row_target (demo_rows ! 0) = Some ''0xA'' \<and>
   row_amount digits_value (demo_rows ! 0) = 100 \<and>
   map_of [(Some ''0xA'', 250 :: nat)] (row_target (demo_rows ! 0)) \<noteq>
     Some (row_amount digits_value (demo_rows ! 0))"
  by (simp add: process_bribe_csv_def demo_rows_def ebind_def bribe_step_def row_getitem_def
      py_float_def bribes_getitem_def digits_value_def row_ok_def row_platform_def
      row_target_def row_amount_def)


section \<open>The report script: Python values\<close>

text \<open>
  The values the report script handles: what \<open>json.load\<close> yields (\<open>None\<close>, booleans,
  integers, strings, lists, dicts) and \<open>PObj\<close>, an object of the outside world (a contract,
  an address book, a float) that the script only passes around; the number names it.
  A dict is an association list in insertion order, read at the first binding of a key.
\<close>

datatype pyval =
    PNone
  | PBool bool
  | PInt int
  | PStr string
  | PList "pyval list"
  | PDict "(pyval \<times> pyval) list"
  | PObj nat

text \<open>Python's truth value of an object (\<open>if x:\<close>, \<open>not x\<close>, \<open>x or y\<close>).\<close>

fun truthy :: "pyval \<Rightarrow> bool" where
  "truthy PNone = False"
| "truthy (PBool b) = b"
| "truthy (PInt i) = (i \<noteq> 0)"
| "truthy (PStr s) = (s \<noteq> [])"
| "truthy (PList xs) = (xs \<noteq> [])"
| "truthy (PDict kvs) = (kvs \<noteq> [])"
| "truthy (PObj n) = True"

text \<open>
  The key under which a dict or a set stores an object: lists and dicts are unhashable
  (\<open>TypeError\<close>), and \<open>True\<close> and \<open>False\<close> are the keys \<open>1\<close> and \<open>0\<close>.
\<close>

fun hashkey :: "pyval \<Rightarrow> py_error + pyval" where
  "hashkey (PList xs) = Inl TypeError"
| "hashkey (PDict kvs) = Inl TypeError"
| "hashkey (PBool b) = Inr (PInt (if b then 1 else 0))"
| "hashkey v = Inr v"

text \<open>
  \<open>xs[i]\<close> on a list or a string of length \<open>len\<close>: the positions \<open>0 \<dots> len - 1\<close> are read
  from the front, the positions \<open>-len \<dots> -1\<close> from the back, and every other position
  raises \<open>IndexError\<close>.
\<close>

definition seq_index :: "'a list \<Rightarrow> int \<Rightarrow> py_error + 'a" where
  "seq_index xs i =
     (if 0 \<le> i \<and> i < int (length xs) then Inr (xs ! nat i)
      else if i < 0 \<and> - int (length xs) \<le> i then Inr (xs ! nat (int (length xs) + i))
      else Inl IndexError)"

text \<open>
  \<open>obj[key]\<close>: a dict is read at the key, a list or a string at an integer position
  (\<open>True\<close> and \<open>False\<close> are the positions 1 and 0), and nothing else is subscriptable.
\<close>

fun key_position :: "pyval \<Rightarrow> py_error + int" where
  "key_position (PInt i) = Inr i"
| "key_position (PBool b) = Inr (if b then 1 else 0)"
| "key_position key = Inl TypeError"

definition py_getitem :: "pyval \<Rightarrow> pyval \<Rightarrow> py_error + pyval" where
  "py_getitem obj key =
     (case obj of
        PDict kvs \<Rightarrow>
          ebind (hashkey key) (\<lambda>k. case map_of kvs k of None \<Rightarrow> Inl KeyError | Some v \<Rightarrow> Inr v)
      | PList xs \<Rightarrow> ebind (key_position key) (seq_index xs)
      | PStr s \<Rightarrow> ebind (key_position key) (\<lambda>i. ebind (seq_index s i) (\<lambda>c. Inr (PStr [c])))
      | _ \<Rightarrow> Inl TypeError)"

text \<open>\<open>obj.get(key, default)\<close>: only a dict has the method.\<close>

fun py_get :: "pyval \<Rightarrow> pyval \<Rightarrow> pyval \<Rightarrow> py_error + pyval" where
  "py_get (PDict kvs) key dflt =
     ebind (hashkey key) (\<lambda>k. case map_of kvs k of None \<Rightarrow> Inr dflt | Some v \<Rightarrow> Inr v)"
| "py_get obj key dflt = Inl AttributeError"

text \<open>\<open>d[key] = v\<close> on a dict.\<close>

definition dict_setitem :: "(pyval \<times> 'v) list \<Rightarrow> pyval \<Rightarrow> 'v \<Rightarrow> py_error + (pyval \<times> 'v) list" where
  "dict_setitem d key v = ebind (hashkey key) (\<lambda>k. Inr (AList.update k v d))"

text \<open>\<open>d[key]\<close> on a plain dict of the script's own.\<close>

definition dict_getitem :: "(pyval \<times> 'v) list \<Rightarrow> pyval \<Rightarrow> py_error + 'v" where
  "dict_getitem d key =
     ebind (hashkey key) (\<lambda>k. case map_of d k of None \<Rightarrow> Inl KeyError | Some v \<Rightarrow> Inr v)"

text \<open>\<open>len(obj)\<close> and the elements a \<open>for\<close> loop visits.\<close>

fun py_len :: "pyval \<Rightarrow> py_error + nat" where
  "py_len (PStr s) = Inr (length s)"
| "py_len (PList xs) = Inr (length xs)"
| "py_len (PDict kvs) = Inr (length kvs)"
| "py_len obj = Inl TypeError"

fun py_iter :: "pyval \<Rightarrow> py_error + pyval list" where
  "py_iter (PStr s) = Inr (map (\<lambda>c. PStr [c]) s)"
| "py_iter (PList xs) = Inr xs"
| "py_iter (PDict kvs) = Inr (map fst kvs)"
| "py_iter obj = Inl TypeError"

text \<open>\<open>d.items()\<close> and \<open>d.values()\<close>.\<close>

fun py_items :: "pyval \<Rightarrow> py_error + (pyval \<times> pyval) list" where
  "py_items (PDict kvs) = Inr kvs"
| "py_items obj = Inl AttributeError"

fun py_values :: "pyval \<Rightarrow> py_error + pyval list" where
  "py_values (PDict kvs) = Inr (map snd kvs)"
| "py_values obj = Inl AttributeError"

text \<open>\<open>"text" in obj\<close> for a string on the left: a key of a dict, an element of a list, a
  substring of a string.\<close>

fun is_substring :: "string \<Rightarrow> string \<Rightarrow> bool" where
  "is_substring sub [] = (sub = [])"
| "is_substring sub (c # cs) = (prefix sub (c # cs) \<or> is_substring sub cs)"

fun py_in_str :: "string \<Rightarrow> pyval \<Rightarrow> py_error + bool" where
  "py_in_str k (PDict kvs) = Inr (map_of kvs (PStr k) \<noteq> None)"
| "py_in_str k (PList xs) = Inr (PStr k \<in> set xs)"
| "py_in_str k (PStr s) = Inr (is_substring k s)"
| "py_in_str k obj = Inl TypeError"

text \<open>\<open>s.replace(old, new)\<close> for a non-empty \<open>old\<close>: every occurrence, left to right,
  occurrences not overlapping.  The counter is the number of characters of a found
  occurrence still to skip.\<close>

fun replace_from :: "nat \<Rightarrow> string \<Rightarrow> string \<Rightarrow> string \<Rightarrow> string" where
  "replace_from k old new [] = []"
| "replace_from k old new (c # cs) =
     (if 0 < k then replace_from (k - 1) old new cs
      else if prefix old (c # cs) then new @ replace_from (length old - 1) old new cs
      else c # replace_from 0 old new cs)"

definition str_replace :: "string \<Rightarrow> string \<Rightarrow> string \<Rightarrow> string" where
  "str_replace old new s = replace_from 0 old new s"

fun py_replace :: "pyval \<Rightarrow> string \<Rightarrow> string \<Rightarrow> py_error + pyval" where
  "py_replace (PStr s) old new = Inr (PStr (str_replace old new s))"
| "py_replace obj old new = Inl AttributeError"

text \<open>\<open>s.strip(chars)\<close> and \<open>s.split(sep)\<close> for a separator of one character.\<close>

definition str_strip :: "string \<Rightarrow> string \<Rightarrow> string" where
  "str_strip chars s =
     rev (dropWhile (\<lambda>c. c \<in> set chars) (rev (dropWhile (\<lambda>c. c \<in> set chars) s)))"

fun split_from :: "char \<Rightarrow> string \<Rightarrow> string \<Rightarrow> string list" where
  "split_from sep cur [] = [cur]"
| "split_from sep cur (c # cs) =
     (if c = sep then cur # split_from sep [] cs else split_from sep (cur @ [c]) cs)"

definition str_split :: "char \<Rightarrow> string \<Rightarrow> string list" where
  "str_split sep s = split_from sep [] s"

text \<open>\<open>"sep".join(xs)\<close>: every element has to be a string.\<close>

fun str_of :: "pyval \<Rightarrow> py_error + string" where
  "str_of (PStr s) = Inr s"
| "str_of v = Inl TypeError"

fun emap :: "('a \<Rightarrow> py_error + 'b) \<Rightarrow> 'a list \<Rightarrow> py_error + 'b list" where
  "emap f [] = Inr []"
| "emap f (x # xs) = ebind (f x) (\<lambda>y. ebind (emap f xs) (\<lambda>ys. Inr (y # ys)))"

fun intersperse :: "string \<Rightarrow> string list \<Rightarrow> string" where
  "intersperse sep [] = []"
| "intersperse sep [x] = x"
| "intersperse sep (x # y # ys) = x @ sep @ intersperse sep (y # ys)"

definition py_join :: "string \<Rightarrow> pyval list \<Rightarrow> py_error + pyval" where
  "py_join sep xs = ebind (emap str_of xs) (\<lambda>ss. Inr (PStr (intersperse sep ss)))"

text \<open>A Python \<open>set\<close>: its elements, each once.  \<open>s.add(x)\<close>, \<open>set(range(n))\<close> and
  \<open>a.symmetric_difference(b)\<close>.\<close>

definition set_add :: "pyval list \<Rightarrow> pyval \<Rightarrow> py_error + pyval list" where
  "set_add s x = ebind (hashkey x) (\<lambda>k. Inr (if k \<in> set s then s else s @ [k]))"

definition set_of_range :: "nat \<Rightarrow> pyval list" where
  "set_of_range n = map (\<lambda>i. PInt (int i)) [0..<n]"

definition symmetric_difference :: "pyval list \<Rightarrow> pyval list \<Rightarrow> pyval list" where
  "symmetric_difference a b = filter (\<lambda>x. x \<notin> set b) a @ filter (\<lambda>x. x \<notin> set a) b"

section \<open>The report script: the outside world\<close>

text \<open>
  A computation that may raise and that may change a state: the state after it, and the
  value returned or the exception raised.  An exception ends the computation; the changes
  made before it stay.
\<close>

type_synonym ('s, 'a) io = "'s \<Rightarrow> (py_error + 'a) \<times> 's"

definition io_ret :: "'a \<Rightarrow> ('s, 'a) io" where
  "io_ret x s = (Inr x, s)"

definition io_raise :: "py_error \<Rightarrow> ('s, 'a) io" where
  "io_raise e s = (Inl e, s)"

definition io_lift :: "py_error + 'a \<Rightarrow> ('s, 'a) io" where
  "io_lift r s = (r, s)"

definition io_bind :: "('s, 'a) io \<Rightarrow> ('a \<Rightarrow> ('s, 'b) io) \<Rightarrow> ('s, 'b) io" where
  "io_bind m f s = (case m s of (Inl e, s') \<Rightarrow> (Inl e, s') | (Inr x, s') \<Rightarrow> f x s')"

text \<open>
  Everything the script imports: the address book and permissions library, the contract
  objects of the chain client, the helpers of \<open>script_utils\<close>, and the parts of Python whose
  results involve floats or text layout.  \<open>'w\<close> is the state of the outside world (the
  connected network, the chains, the remote services).
  \<^item> \<open>ext_call name args\<close> is the call or the lookup written \<open>name(args)\<close> in the source, for an
    imported function, a class or a path of attributes of an imported object; keyword
    arguments are passed in the order written;
  \<^item> \<open>ext_method obj name args\<close> is \<open>obj.name(args)\<close> on an object of the outside world;
  \<^item> \<open>ext_attr obj name\<close> is \<open>obj.name\<close>;
  \<^item> \<open>str_other\<close> is \<open>str(x)\<close>, as an f-string formats a value that is not a string;
  \<^item> \<open>json_dumps x indent\<close> is \<open>json.dumps(x, indent=indent)\<close>;
  \<^item> \<open>int_of_str\<close> is \<open>int(s)\<close> for a string, \<open>None\<close> where it raises \<open>ValueError\<close>;
  \<^item> \<open>truediv\<close> is \<open>x / y\<close>, \<open>pow\<close> is \<open>x ** y\<close>, \<open>float_lit\<close> is a float literal;
  \<^item> \<open>set_iter\<close> is the order in which a \<open>for\<close> loop visits a set, which Python leaves open.
\<close>

record 'w env =
  ext_call :: "string \<Rightarrow> pyval list \<Rightarrow> ('w, pyval) io"
  ext_method :: "pyval \<Rightarrow> string \<Rightarrow> pyval list \<Rightarrow> ('w, pyval) io"
  ext_attr :: "pyval \<Rightarrow> string \<Rightarrow> ('w, pyval) io"
  str_other :: "pyval \<Rightarrow> string"
  json_dumps :: "pyval \<Rightarrow> nat \<Rightarrow> py_error + string"
  int_of_str :: "string \<Rightarrow> int option"
  truediv :: "pyval \<Rightarrow> pyval \<Rightarrow> py_error + pyval"
  pow :: "pyval \<Rightarrow> pyval \<Rightarrow> py_error + pyval"
  float_lit :: "string \<Rightarrow> pyval"
  set_iter :: "pyval list \<Rightarrow> pyval list"

text \<open>\<open>str(x)\<close> and \<open>int(x)\<close>.\<close>

definition py_str :: "'w env \<Rightarrow> pyval \<Rightarrow> string" where
  "py_str env v = (case v of PStr s \<Rightarrow> s | _ \<Rightarrow> str_other env v)"

fun py_int :: "'w env \<Rightarrow> pyval \<Rightarrow> py_error + int" where
  "py_int env (PInt i) = Inr i"
| "py_int env (PBool b) = Inr (if b then 1 else 0)"
| "py_int env (PStr s) = (case int_of_str env s of None \<Rightarrow> Inl (ValueError s) | Some i \<Rightarrow> Inr i)"
| "py_int env v = Inl TypeError"

section \<open>The report script: \<open>handler\<close>\<close>

text \<open>
  A classifier (\<open>handler_func\<close>): it takes the transaction and the keyword arguments
  \<open>chain_id\<close>, \<open>bip_number\<close> and \<open>tx_index\<close>, and returns a report row or \<open>None\<close>.
  The \<open>print\<close> statements of the script are left out throughout.
\<close>

type_synonym kwargs = "(string \<times> pyval) list"
type_synonym 'w handler_func = "pyval \<Rightarrow> kwargs \<Rightarrow> ('w, pyval) io"

text \<open>
  The inner loop of \<open>handler\<close>, \<open>for transaction in tx_list\<close>, with the counter \<open>i\<close> and the
  list \<open>outputs\<close> as loop state.  The keyword arguments are evaluated in the order written:
  \<open>file["chainId"]\<close>, then \<open>transaction.get("meta", {}).get("bip_number")\<close>, and
  \<open>extract_bip_number(file)\<close> only when that is falsy.
\<close>

fun handler_txs ::
  "'w env \<Rightarrow> 'w handler_func \<Rightarrow> pyval \<Rightarrow> pyval list \<Rightarrow> nat \<Rightarrow> pyval list \<Rightarrow> ('w, pyval list) io" where
  "handler_txs env handler_func file [] i outputs = io_ret outputs"
| "handler_txs env handler_func file (transaction # rest) i outputs =
     io_bind (io_lift (py_getitem file (PStr ''chainId''))) (\<lambda>chain_id.
     io_bind (io_lift (py_get transaction (PStr ''meta'') (PDict []))) (\<lambda>meta.
     io_bind (io_lift (py_get meta (PStr ''bip_number'') PNone)) (\<lambda>meta_bip.
     io_bind (if truthy meta_bip then io_ret meta_bip
              else ext_call env ''extract_bip_number'' [file]) (\<lambda>bip_number.
     io_bind (handler_func transaction
                [(''chain_id'', chain_id), (''bip_number'', bip_number), (''tx_index'', PInt (int i))]) (\<lambda>data.
     handler_txs env handler_func file rest (Suc i)
       (if truthy data then outputs @ [data] else outputs))))))"

text \<open>The body of the outer loop, \<open>for file in files\<close>, with the dict \<open>reports\<close> as state.\<close>

definition handler_file ::
  "'w env \<Rightarrow> 'w handler_func \<Rightarrow> (pyval \<times> pyval) list \<Rightarrow> pyval \<Rightarrow> ('w, (pyval \<times> pyval) list) io" where
  "handler_file env handler_func reports file =
     io_bind (io_lift (py_getitem file (PStr ''transactions''))) (\<lambda>tx_list.
     io_bind (io_lift (py_iter tx_list)) (\<lambda>txs.
     io_bind (handler_txs env handler_func file txs 0 []) (\<lambda>outputs.
     if outputs \<noteq> [] then
       io_bind (io_lift (py_getitem file (PStr ''meta''))) (\<lambda>meta.
       io_bind (io_lift (py_getitem meta (PStr ''createdFromSafeAddress''))) (\<lambda>safe.
       io_bind (io_lift (py_getitem file (PStr ''chainId''))) (\<lambda>chain_id.
       io_bind (io_lift (py_int env chain_id)) (\<lambda>chain_int.
       io_bind (ext_call env ''format_into_report'' [file, PList outputs, safe, PInt chain_int]) (\<lambda>report_text.
       io_bind (io_lift (py_getitem file (PStr ''file_name''))) (\<lambda>file_name.
       io_lift (dict_setitem reports file_name
         (PDict [(PStr ''report_text'', report_text),
                 (PStr ''report_data'', PDict [(PStr ''file'', file), (PStr ''outputs'', PList outputs)])]))))))))
     else io_ret reports)))"

fun handler_files ::
  "'w env \<Rightarrow> 'w handler_func \<Rightarrow> (pyval \<times> pyval) list \<Rightarrow> pyval list \<Rightarrow> ('w, (pyval \<times> pyval) list) io" where
  "handler_files env handler_func reports [] = io_ret reports"
| "handler_files env handler_func reports (file # rest) =
     io_bind (handler_file env handler_func reports file) (\<lambda>reports'.
     handler_files env handler_func reports' rest)"

definition handler :: "'w env \<Rightarrow> pyval list \<Rightarrow> 'w handler_func \<Rightarrow> ('w, pyval) io" where
  "handler env files handler_func =
     io_bind (handler_files env handler_func [] files) (\<lambda>reports. io_ret (PDict reports))"

section \<open>The report script: \<open>parse_no_reports_report\<close>\<close>

text \<open>
  The first loop: the three dicts keyed by \<open>file["file_name"]\<close>, namely the length of the
  transaction list, the (empty) set of covered indices, and the file itself.
\<close>

type_synonym file_index = "(pyval \<times> nat) list \<times> (pyval \<times> pyval list) list \<times> (pyval \<times> pyval) list"

fun index_files :: "file_index \<Rightarrow> pyval list \<Rightarrow> py_error + file_index" where
  "index_files idx [] = Inr idx"
| "index_files (tx_list_len_by_file, covered_indexs_by_file, filedata_by_file) (file # rest) =
     ebind (py_getitem file (PStr ''transactions'')) (\<lambda>tx_list.
     ebind (py_len tx_list) (\<lambda>n.
     ebind (py_getitem file (PStr ''file_name'')) (\<lambda>file_name.
     ebind (dict_setitem tx_list_len_by_file file_name n) (\<lambda>lens.
     ebind (dict_setitem covered_indexs_by_file file_name []) (\<lambda>covered.
     ebind (dict_setitem filedata_by_file file_name file) (\<lambda>filedata.
     index_files (lens, covered, filedata) rest))))))"

text \<open>
  The second loop: every output of every report adds its \<open>tx_index\<close> to the set of its file;
  \<open>covered_indexs_by_file\<close> is a plain dict, so a file name that is not among the files is a
  \<open>KeyError\<close>.
\<close>

fun cover_outputs ::
  "(pyval \<times> pyval list) list \<Rightarrow> pyval \<Rightarrow> pyval list \<Rightarrow> py_error + (pyval \<times> pyval list) list" where
  "cover_outputs covered filename [] = Inr covered"
| "cover_outputs covered filename (output # rest) =
     ebind (dict_getitem covered filename) (\<lambda>s.
     ebind (py_get output (PStr ''tx_index'') PNone) (\<lambda>tx_index.
     ebind (set_add s tx_index) (\<lambda>s'.
     ebind (dict_setitem covered filename s') (\<lambda>covered'.
     cover_outputs covered' filename rest))))"

fun cover_items ::
  "(pyval \<times> pyval list) list \<Rightarrow> (pyval \<times> pyval) list \<Rightarrow> py_error + (pyval \<times> pyval list) list" where
  "cover_items covered [] = Inr covered"
| "cover_items covered ((filename, info) # rest) =
     ebind (py_getitem info (PStr ''report_data'')) (\<lambda>report_data.
     ebind (py_getitem report_data (PStr ''outputs'')) (\<lambda>outputs.
     ebind (py_iter outputs) (\<lambda>outs.
     ebind (cover_outputs covered filename outs) (\<lambda>covered'.
     cover_items covered' rest))))"

fun cover_reports ::
  "(pyval \<times> pyval list) list \<Rightarrow> pyval list \<Rightarrow> py_error + (pyval \<times> pyval list) list" where
  "cover_reports covered [] = Inr covered"
| "cover_reports covered (report_info # rest) =
     ebind (py_items report_info) (\<lambda>items.
     ebind (cover_items covered items) (\<lambda>covered'.
     cover_reports covered' rest))"

text \<open>
  The uncovered indices of a file with \<open>n\<close> transactions:
  \<^verbatim>\<open>uncovered_indexs = set(all_indexes).symmetric_difference(covered_indexes)\<close>
  \<^verbatim>\<open>if len(covered_indexes) == 0: uncovered_indexs.add(0)\<close>
\<close>

definition uncovered_indexs :: "nat \<Rightarrow> pyval list \<Rightarrow> pyval list" where
  "uncovered_indexs n covered_indexes =
     (let u = symmetric_difference (set_of_range n) covered_indexes
      in if length covered_indexes = 0 then (if PInt 0 \<in> set u then u else u @ [PInt 0]) else u)"

text \<open>The row reported for the uncovered index \<open>i\<close>: the body of \<open>for i in uncovered_indexs\<close>.\<close>

definition no_report_row ::
  "'w env \<Rightarrow> pyval \<Rightarrow> pyval \<Rightarrow> pyval \<Rightarrow> pyval \<Rightarrow> pyval \<Rightarrow> ('w, pyval) io" where
  "no_report_row env filename filedata chain_name addr i =
     io_bind (io_lift (py_getitem filedata (PStr ''transactions''))) (\<lambda>tx_list.
     io_bind (io_lift (py_getitem tx_list i)) (\<lambda>transaction.
     io_bind (io_lift (py_getitem transaction (PStr ''to''))) (\<lambda>to.
     io_bind (io_lift (py_get transaction (PStr ''meta'') (PDict []))) (\<lambda>meta.
     io_bind (io_lift (py_get meta (PStr ''bip_number'') PNone)) (\<lambda>meta_bip.
     io_bind (if truthy meta_bip then io_ret meta_bip
              else ext_call env ''extract_bip_number_from_file_name'' [filename]) (\<lambda>bip_number.
     io_bind (io_lift (py_get transaction (PStr ''contractInputsValues'') PNone)) (\<lambda>civ.
     io_bind (case civ of
                PDict kvs \<Rightarrow> ext_call env ''prettify_contract_inputs_values'' [chain_name, civ]
              | _ \<Rightarrow>
                io_bind (io_lift (py_get transaction (PStr ''data'') PNone)) (\<lambda>d.
                if truthy d then io_lift (py_getitem transaction (PStr ''data''))
                else io_ret (PStr ''N/A''))) (\<lambda>civ_parsed.
     io_bind (io_lift (py_get transaction (PStr ''contractMethod'') (PDict []))) (\<lambda>contractMethod.
     io_bind (io_lift (py_get transaction (PStr ''value'') PNone)) (\<lambda>raw_value.
     io_bind (if truthy raw_value then
                io_bind (io_lift (py_int env raw_value)) (\<lambda>v.
                if v = 0 then io_ret (py_str env (PInt v))
                else io_bind (io_lift (truediv env (PInt v) (float_lit env ''1e18''))) (\<lambda>q.
                     io_ret (py_str env (PInt v) @ ''/1e18 = '' @ py_str env q)))
              else io_ret ''N/A'') (\<lambda>valuestring.
     io_bind (if truthy contractMethod
              then io_lift (py_get contractMethod (PStr ''name'') (PStr ''!!N/A!!''))
              else io_ret (PStr ''!!N/A!!'')) (\<lambda>fx_name.
     io_bind (ext_method env addr ''reversebook.get'' [to, PStr ''Not Found'']) (\<lambda>to_name.
     io_bind (io_lift (json_dumps env civ_parsed 2)) (\<lambda>inputs.
     io_bind (io_lift (py_get transaction (PStr ''tx_index'') (PStr ''N/A''))) (\<lambda>tx_index.
     io_ret (PDict
       [(PStr ''fx_name'', fx_name),
        (PStr ''to'', PStr (py_str env to @ '' ('' @ py_str env to_name @ '')'')),
        (PStr ''chain'', chain_name),
        (PStr ''value'', PStr valuestring),
        (PStr ''inputs'', PStr inputs),
        (PStr ''bip_number'', bip_number),
        (PStr ''tx_index'', tx_index)]))))))))))))))))"

fun no_report_rows ::
  "'w env \<Rightarrow> pyval \<Rightarrow> pyval \<Rightarrow> pyval \<Rightarrow> pyval \<Rightarrow> pyval list \<Rightarrow> pyval list \<Rightarrow> ('w, pyval list) io" where
  "no_report_rows env filename filedata chain_name addr no_reports [] = io_ret no_reports"
| "no_report_rows env filename filedata chain_name addr no_reports (i # rest) =
     io_bind (no_report_row env filename filedata chain_name addr i) (\<lambda>row.
     no_report_rows env filename filedata chain_name addr (no_reports @ [row]) rest)"

text \<open>
  The body of the third loop, \<open>for filename, covered_indexes in covered_indexs_by_file.items()\<close>.
  \<open>tx_list_len_by_file\<close> and \<open>filedata_by_file\<close> are \<open>defaultdict\<close>s: a missing key reads
  as \<open>0\<close> and as \<open>{}\<close>.
\<close>

definition no_report_file ::
  "'w env \<Rightarrow> (pyval \<times> nat) list \<Rightarrow> (pyval \<times> pyval) list \<Rightarrow> (pyval \<times> pyval) list \<Rightarrow>
     pyval \<times> pyval list \<Rightarrow> ('w, (pyval \<times> pyval) list) io" where
  "no_report_file env tx_list_len_by_file filedata_by_file reports item =
     (let filename = fst item; covered_indexes = snd item;
          n = (case map_of tx_list_len_by_file filename of None \<Rightarrow> 0 | Some l \<Rightarrow> l);
          uncovered = uncovered_indexs n covered_indexes
      in if length uncovered = 0 then io_ret reports
         else
           let filedata = (case map_of filedata_by_file filename of None \<Rightarrow> PDict [] | Some f \<Rightarrow> f) in
           io_bind (io_lift (py_getitem filedata (PStr ''meta''))) (\<lambda>meta.
           io_bind (io_lift (py_getitem meta (PStr ''createdFromSafeAddress''))) (\<lambda>multisig.
           io_bind (io_lift (py_getitem filedata (PStr ''chainId''))) (\<lambda>chain_id.
           io_bind (io_lift (py_int env chain_id)) (\<lambda>chain_int.
           io_bind (ext_call env ''AddrBook.chain_names_by_id.get''
                      [PInt chain_int, PStr ''Chain_not_found'']) (\<lambda>chain_name.
           io_bind (ext_call env ''AddrBook'' [chain_name]) (\<lambda>addr.
           io_bind (no_report_rows env filename filedata chain_name addr []
                      (set_iter env uncovered)) (\<lambda>no_reports.
           io_bind (ext_call env ''format_into_report''
                      [filedata, PList no_reports, multisig, PInt chain_int]) (\<lambda>report_text.
           io_ret (AList.update filename
             (PDict [(PStr ''report_text'', report_text),
                     (PStr ''report_data'',
                        PDict [(PStr ''file'', PDict [(PStr ''file_name'', filename)]),
                               (PStr ''outputs'', PList no_reports)])])
             reports))))))))))"

fun no_report_files ::
  "'w env \<Rightarrow> (pyval \<times> nat) list \<Rightarrow> (pyval \<times> pyval) list \<Rightarrow> (pyval \<times> pyval) list \<Rightarrow>
     (pyval \<times> pyval list) list \<Rightarrow> ('w, (pyval \<times> pyval) list) io" where
  "no_report_files env lens filedata reports [] = io_ret reports"
| "no_report_files env lens filedata reports (item # rest) =
     io_bind (no_report_file env lens filedata reports item) (\<lambda>reports'.
     no_report_files env lens filedata reports' rest)"

text \<open>The dict of covered indices per file, as the first two loops leave it.\<close>

definition covered_indexs_by_file :: "pyval list \<Rightarrow> pyval list \<Rightarrow> py_error + (pyval \<times> pyval list) list" where
  "covered_indexs_by_file all_reports files =
     ebind (index_files ([], [], []) files) (\<lambda>idx.
     cover_reports (fst (snd idx)) all_reports)"

definition parse_no_reports_report :: "'w env \<Rightarrow> pyval list \<Rightarrow> pyval list \<Rightarrow> ('w, pyval) io" where
  "parse_no_reports_report env all_reports files =
     io_bind (io_lift (index_files ([], [], []) files)) (\<lambda>idx.
     io_bind (io_lift (cover_reports (fst (snd idx)) all_reports)) (\<lambda>covered.
     io_bind (no_report_files env (fst idx) (snd (snd idx)) [] covered) (\<lambda>reports.
     io_ret (PDict reports))))"

subsection \<open>What the reports claim, in the words of the specification\<close>








text \<open>
  After the first loop every key of \<open>covered_indexs_by_file\<close> has its length and its file
  in the other two dicts, and the length is that of the file's transaction list.
\<close>

definition entry_ok :: "(pyval \<times> nat) list \<Rightarrow> (pyval \<times> pyval) list \<Rightarrow> pyval \<Rightarrow> bool" where
  "entry_ok lens filedata k \<longleftrightarrow>
     (\<exists>n fl tx_list. map_of lens k = Some n \<and> map_of filedata k = Some fl \<and>
        py_getitem fl (PStr ''transactions'') = Inr tx_list \<and> py_len tx_list = Inr n)"

definition index_ok :: "file_index \<Rightarrow> bool" where
  "index_ok idx \<longleftrightarrow>
     distinct (map fst (fst (snd idx))) \<and>
     (\<forall>k \<in> fst ` set (fst (snd idx)). entry_ok (fst idx) (snd (snd idx)) k)"

text \<open>Sample transactions, files and reports.\<close>

definition demo_tx :: "string \<Rightarrow> pyval" where
  "demo_tx method =
     PDict [(PStr ''to'', PStr ''0xT''), (PStr ''value'', PStr ''0''),
            (PStr ''contractMethod'', PDict [(PStr ''name'', PStr method)]),
            (PStr ''contractInputsValues'', PDict [(PStr ''x'', PStr ''1'')])]"

definition demo_file :: "string \<Rightarrow> pyval list \<Rightarrow> pyval" where
  "demo_file name txs =
     PDict [(PStr ''file_name'', PStr name), (PStr ''chainId'', PStr ''1''),
            (PStr ''meta'', PDict [(PStr ''createdFromSafeAddress'', PStr ''0xSafe'')]),
            (PStr ''transactions'', PList txs)]"


subsection \<open>Properties of the coverage bookkeeping\<close>

lemma ebind_Inr: "ebind m f = Inr y \<longleftrightarrow> (\<exists>x. m = Inr x \<and> f x = Inr y)"
  by (cases m) (simp_all add: ebind_def)

lemma ebind_simps [simp]: "ebind (Inr x) f = f x" "ebind (Inl e) f = Inl e"
  by (simp_all add: ebind_def)

lemma py_getitem_simps [simp]:
  "py_getitem (PDict kvs) key =
     ebind (hashkey key) (\<lambda>k. case map_of kvs k of None \<Rightarrow> Inl KeyError | Some v \<Rightarrow> Inr v)"
  "py_getitem (PList xs) key = ebind (key_position key) (seq_index xs)"
  "py_getitem (PStr s) key = ebind (key_position key) (\<lambda>i. ebind (seq_index s i) (\<lambda>c. Inr (PStr [c])))"
  "py_getitem PNone key = Inl TypeError"
  "py_getitem (PBool b) key = Inl TypeError"
  "py_getitem (PInt i) key = Inl TypeError"
  "py_getitem (PObj n) key = Inl TypeError"
  by (simp_all add: py_getitem_def)











lemma io_bind_Inr:
  "io_bind m f s = (Inr y, s') \<longleftrightarrow> (\<exists>x s1. m s = (Inr x, s1) \<and> f x s1 = (Inr y, s'))"
  by (cases "m s"; cases "fst (m s)") (auto simp: io_bind_def)

lemma io_lift_eq: "io_lift r s = (v, s') \<longleftrightarrow> r = v \<and> s' = s"
  by (auto simp: io_lift_def)

lemma io_ret_eq: "io_ret x s = (v, s') \<longleftrightarrow> v = Inr x \<and> s' = s"
  by (auto simp: io_ret_def)

lemma entry_ok_update:
  "entry_ok lens filedata k \<Longrightarrow> k \<noteq> kf \<Longrightarrow>
     entry_ok (AList.update kf n lens) (AList.update kf fl filedata) k"
  by (simp add: entry_ok_def AList.update_conv')

lemma entry_ok_new:
  "py_getitem fl (PStr ''transactions'') = Inr tx_list \<Longrightarrow> py_len tx_list = Inr n \<Longrightarrow>
     entry_ok (AList.update kf n lens) (AList.update kf fl filedata) kf"
  by (simp add: entry_ok_def AList.update_conv')

lemma index_files_ok:
  "index_files idx files = Inr idx' \<Longrightarrow> index_ok idx \<Longrightarrow> index_ok idx'"
proof (induction files arbitrary: idx)
  case Nil
  then show ?case by simp
next
  case (Cons fl rest)
  obtain lens covered filedata where idx: "idx = (lens, covered, filedata)" by (cases idx)
  from Cons.prems(1) obtain tx_list n kf where
    t: "py_getitem fl (PStr ''transactions'') = Inr tx_list" "py_len tx_list = Inr n" and
    r: "index_files (AList.update kf n lens, AList.update kf [] covered, AList.update kf fl filedata) rest
          = Inr idx'"
    by (auto simp: idx ebind_Inr dict_setitem_def)
  have d: "distinct (map fst (AList.update kf [] covered))"
    using Cons.prems(2) by (simp add: idx index_ok_def AList.distinct_update)
  have "entry_ok (AList.update kf n lens) (AList.update kf fl filedata) k"
    if "k \<in> fst ` set (AList.update kf [] covered)" for k
  proof (cases "k = kf")
    case True
    then show ?thesis using entry_ok_new[OF t] by simp
  next
    case False
    then have "k \<in> fst ` set covered" using that by (simp add: AList.dom_update)
    then have "entry_ok lens filedata k" using Cons.prems(2) by (auto simp: idx index_ok_def)
    then show ?thesis using False by (rule entry_ok_update)
  qed
  with d have "index_ok (AList.update kf n lens, AList.update kf [] covered, AList.update kf fl filedata)"
    by (simp add: index_ok_def)
  from Cons.IH[OF r this] show ?case .
qed

lemma cover_outputs_keys:
  "cover_outputs covered filename outs = Inr covered' \<Longrightarrow> map fst covered' = map fst covered"
proof (induction outs arbitrary: covered)
  case Nil
  then show ?case by simp
next
  case (Cons out rest)
  from Cons.prems obtain s s' kf where
    kf: "map_of covered kf = Some s" and
    r: "cover_outputs (AList.update kf s' covered) filename rest = Inr covered'"
    by (auto simp: ebind_Inr dict_getitem_def dict_setitem_def split: option.splits)
  have "kf \<in> fst ` set covered" using kf by (force dest: map_of_SomeD)
  then have "map fst (AList.update kf s' covered) = map fst covered"
    by (simp add: AList.update_keys)
  with Cons.IH[OF r] show ?case by simp
qed

lemma cover_items_keys:
  "cover_items covered items = Inr covered' \<Longrightarrow> map fst covered' = map fst covered"
proof (induction items arbitrary: covered)
  case Nil
  then show ?case by simp
next
  case (Cons item rest)
  obtain filename info where item: "item = (filename, info)" by (cases item)
  from Cons.prems obtain outs c1 where
    c: "cover_outputs covered filename outs = Inr c1" and
    r: "cover_items c1 rest = Inr covered'"
    by (auto simp: item ebind_Inr)
  from cover_outputs_keys[OF c] Cons.IH[OF r] show ?case by simp
qed

lemma cover_reports_keys:
  "cover_reports covered all_reports = Inr covered' \<Longrightarrow> map fst covered' = map fst covered"
proof (induction all_reports arbitrary: covered)
  case Nil
  then show ?case by simp
next
  case (Cons report_info rest)
  from Cons.prems obtain items c1 where
    c: "cover_items covered items = Inr c1" and
    r: "cover_reports c1 rest = Inr covered'"
    by (auto simp: ebind_Inr)
  from cover_items_keys[OF c] Cons.IH[OF r] show ?case by simp
qed

lemma index_then_cover:
  assumes "index_files ([], [], []) files = Inr (lens, c0, fd)"
    and "cover_reports c0 all_reports = Inr covered"
    and "(filename, covered_indexes) \<in> set covered"
  shows "map_of covered filename = Some covered_indexes"
    and "\<exists>n fl tx_list. map_of lens filename = Some n \<and> map_of fd filename = Some fl \<and>
           py_getitem fl (PStr ''transactions'') = Inr tx_list \<and> py_len tx_list = Inr n"
proof -
  have ok: "index_ok (lens, c0, fd)"
    by (rule index_files_ok[OF assms(1)]) (simp add: index_ok_def)
  have keys: "map fst covered = map fst c0" by (rule cover_reports_keys[OF assms(2)])
  have d: "distinct (map fst covered)" using ok keys by (simp add: index_ok_def)
  show "map_of covered filename = Some covered_indexes"
    using d assms(3) by simp
  have "filename \<in> set (map fst covered)" using assms(3) by force
  then have "filename \<in> fst ` set c0" unfolding keys by simp
  then have "entry_ok lens fd filename" using ok by (auto simp: index_ok_def)
  then show "\<exists>n fl tx_list. map_of lens filename = Some n \<and> map_of fd filename = Some fl \<and>
           py_getitem fl (PStr ''transactions'') = Inr tx_list \<and> py_len tx_list = Inr n"
    by (simp add: entry_ok_def)
qed







text \<open>
  An outside world in which every call succeeds and returns its own name, for running the
  script on sample input.
\<close>

definition demo_env :: "'s env" where
  "demo_env =
     \<lparr>ext_call = (\<lambda>name args. io_ret (PStr name)),
      ext_method = (\<lambda>obj name args. io_ret (PStr name)),
      ext_attr = (\<lambda>obj name. io_ret (PStr name)),
      str_other = (\<lambda>v. ''?''),
      json_dumps = (\<lambda>v indent. Inr ''{}''),
      int_of_str = (\<lambda>s. if s = ''1'' then Some 1 else if s = ''0'' then Some 0 else None),
      truediv = (\<lambda>x y. Inr (PObj 0)),
      pow = (\<lambda>x y. Inr (PObj 0)),
      float_lit = (\<lambda>s. PObj 0),
      set_iter = (\<lambda>s. s)\<rparr>"

subsection \<open>Processing in list order, in the words of the specification\<close>

text \<open>
  \<open>in_order f xs\<close> runs \<open>f\<close> on the elements of \<open>xs\<close> one at a time, in list order, and
  returns the results in that order; the first exception ends it.
\<close>

fun in_order :: "('a \<Rightarrow> ('s, 'b) io) \<Rightarrow> 'a list \<Rightarrow> ('s, 'b list) io" where
  "in_order f [] = io_ret []"
| "in_order f (x # xs) = io_bind (f x) (\<lambda>y. io_bind (in_order f xs) (\<lambda>ys. io_ret (y # ys)))"

text \<open>
  One invocation of the classifier: on the transaction at position \<open>fst p\<close> of the file's
  transaction list, with \<open>tx_index\<close> equal to that position.
\<close>

definition classify_at :: "'w env \<Rightarrow> 'w handler_func \<Rightarrow> pyval \<Rightarrow> nat \<times> pyval \<Rightarrow> ('w, pyval) io" where
  "classify_at env handler_func file p =
     io_bind (io_lift (py_getitem file (PStr ''chainId''))) (\<lambda>chain_id.
     io_bind (io_lift (py_get (snd p) (PStr ''meta'') (PDict []))) (\<lambda>meta.
     io_bind (io_lift (py_get meta (PStr ''bip_number'') PNone)) (\<lambda>meta_bip.
     io_bind (if truthy meta_bip then io_ret meta_bip
              else ext_call env ''extract_bip_number'' [file]) (\<lambda>bip_number.
     handler_func (snd p)
       [(''chain_id'', chain_id), (''bip_number'', bip_number), (''tx_index'', PInt (int (fst p)))]))))"

text \<open>The elements of a list with their zero-based positions.\<close>

definition positions :: "'a list \<Rightarrow> (nat \<times> 'a) list" where
  "positions xs = zip [0..<length xs] xs"

text \<open>
  One file: its transactions are classified in list order, the truthy results are its
  outputs, in the same order, and when there are any, the entry of the file in \<open>reports\<close>
  is built as \<open>handler\<close> builds it.
\<close>

definition file_entry ::
  "'w env \<Rightarrow> 'w handler_func \<Rightarrow> pyval \<Rightarrow> ('w, (pyval \<times> pyval) option) io" where
  "file_entry env handler_func file =
     io_bind (io_lift (py_getitem file (PStr ''transactions''))) (\<lambda>tx_list.
     io_bind (io_lift (py_iter tx_list)) (\<lambda>txs.
     io_bind (in_order (classify_at env handler_func file) (positions txs)) (\<lambda>results.
     if filter truthy results \<noteq> [] then
       io_bind (io_lift (py_getitem file (PStr ''meta''))) (\<lambda>meta.
       io_bind (io_lift (py_getitem meta (PStr ''createdFromSafeAddress''))) (\<lambda>safe.
       io_bind (io_lift (py_getitem file (PStr ''chainId''))) (\<lambda>chain_id.
       io_bind (io_lift (py_int env chain_id)) (\<lambda>chain_int.
       io_bind (ext_call env ''format_into_report''
                  [file, PList (filter truthy results), safe, PInt chain_int]) (\<lambda>report_text.
       io_bind (io_lift (py_getitem file (PStr ''file_name''))) (\<lambda>file_name.
       io_bind (io_lift (hashkey file_name)) (\<lambda>k.
       io_ret (Some (k,
         PDict [(PStr ''report_text'', report_text),
                (PStr ''report_data'',
                   PDict [(PStr ''file'', file), (PStr ''outputs'', PList (filter truthy results))])])))))))))
     else io_ret None)))"

fun store_entry :: "(pyval \<times> pyval) list \<Rightarrow> (pyval \<times> pyval) option \<Rightarrow> (pyval \<times> pyval) list" where
  "store_entry reports None = reports"
| "store_entry reports (Some (k, v)) = AList.update k v reports"

subsection \<open>The catch-all reporter reads index 0\<close>

lemma no_report_row_reads:
  "no_report_row env filename filedata chain_name addr i w = (Inr row, w') \<Longrightarrow>
     \<exists>tx_list transaction. py_getitem filedata (PStr ''transactions'') = Inr tx_list \<and>
        py_getitem tx_list i = Inr transaction"
  unfolding no_report_row_def
  by (auto simp: io_bind_Inr io_lift_eq)

lemma no_report_rows_each:
  "no_report_rows env filename filedata chain_name addr acc is w = (Inr rows, w') \<Longrightarrow> i \<in> set is \<Longrightarrow>
     \<exists>row w1 w2. no_report_row env filename filedata chain_name addr i w1 = (Inr row, w2)"
proof (induction "is" arbitrary: acc w)
  case Nil
  then show ?case by simp
next
  case (Cons j rest)
  from Cons.prems(1) obtain row w1 where
    a: "no_report_row env filename filedata chain_name addr j w = (Inr row, w1)" and
    r: "no_report_rows env filename filedata chain_name addr (acc @ [row]) rest w1 = (Inr rows, w')"
    by (auto simp: io_bind_Inr)
  show ?case
  proof (cases "i = j")
    case True
    then show ?thesis using a by blast
  next
    case False
    then have "i \<in> set rest" using Cons.prems(2) by simp
    from Cons.IH[OF r this] show ?thesis .
  qed
qed

lemma zero_uncovered: "PInt 0 \<in> set (uncovered_indexs n [])"
  by (simp add: uncovered_indexs_def Let_def)

lemma no_report_file_reads:
  assumes "no_report_file env lens fd reports (filename, []) w = (Inr reports', w')"
    and "\<forall>s. set (set_iter env s) = set s"
  shows "\<exists>fl tx_list transaction. map_of fd filename = Some fl \<and>
           py_getitem fl (PStr ''transactions'') = Inr tx_list \<and>
           py_getitem tx_list (PInt 0) = Inr transaction"
proof -
  let ?n = "case map_of lens filename of None \<Rightarrow> 0 | Some l \<Rightarrow> l"
  let ?fd = "case map_of fd filename of None \<Rightarrow> PDict [] | Some f \<Rightarrow> f"
  have ne: "length (uncovered_indexs ?n []) \<noteq> 0"
    using zero_uncovered[of ?n] by auto
  from assms(1) obtain chain_name addr rows w1 w2 where
    rs: "no_report_rows env filename ?fd chain_name addr [] (set_iter env (uncovered_indexs ?n [])) w1 = (Inr rows, w2)"
    unfolding no_report_file_def Let_def fst_conv snd_conv using ne
    by (auto simp: io_bind_Inr io_lift_eq)
  have mem: "PInt 0 \<in> set (set_iter env (uncovered_indexs ?n []))"
    using assms(2) zero_uncovered by simp
  from no_report_rows_each[OF rs mem] obtain row w3 w4 where
    "no_report_row env filename ?fd chain_name addr (PInt 0) w3 = (Inr row, w4)"
    by blast
  from no_report_row_reads[OF this] obtain tx_list transaction where
    t: "py_getitem ?fd (PStr ''transactions'') = Inr tx_list" "py_getitem tx_list (PInt 0) = Inr transaction"
    by blast
  then show ?thesis by (cases "map_of fd filename") auto
qed

lemma no_report_files_each:
  "no_report_files env lens fd reports items w = (Inr reports', w') \<Longrightarrow> item \<in> set items \<Longrightarrow>
     \<exists>r1 w1 r2 w2. no_report_file env lens fd r1 item w1 = (Inr r2, w2)"
proof (induction items arbitrary: reports w)
  case Nil
  then show ?case by simp
next
  case (Cons j rest)
  from Cons.prems(1) obtain r1 w1 where
    a: "no_report_file env lens fd reports j w = (Inr r1, w1)" and
    r: "no_report_files env lens fd r1 rest w1 = (Inr reports', w')"
    by (auto simp: io_bind_Inr)
  show ?case
  proof (cases "item = j")
    case True
    then show ?thesis using a by blast
  next
    case False
    then have "item \<in> set rest" using Cons.prems(2) by simp
    from Cons.IH[OF r this] show ?thesis .
  qed
qed

lemma getitem_zero_len: "py_getitem tx_list (PInt 0) = Inr t \<Longrightarrow> py_len tx_list = Inr n \<Longrightarrow> 0 < n"
  by (cases tx_list) (auto simp: seq_index_def Let_def ebind_Inr split: if_splits option.splits)

lemma empty_list_index: "py_getitem (PList []) (PInt 0) = Inl IndexError"
  by (simp add: seq_index_def)

text \<open>
  Claim C9.  For a file with no covered index the function puts index 0 into the
  uncovered set whatever the length of the transaction list, and the row for index 0 reads
  the transaction at index 0: on an empty transaction list that read is out of range
  (\<open>IndexError\<close>).  So whenever \<open>parse_no_reports_report\<close> returns, every file with no
  covered index has a non-empty transaction list.  (The loop over the set has to visit
  each of its elements, which is the hypothesis on \<open>set_iter\<close>.)
\<close>

theorem parse_no_reports_report_reads_index_zero:
  assumes "\<forall>s. set (set_iter env s) = set s"
  shows "(\<forall>n. PInt 0 \<in> set (uncovered_indexs n [])) \<and>
     (\<forall>filename filedata chain_name addr w.
        py_getitem filedata (PStr ''transactions'') = Inr (PList []) \<longrightarrow>
        no_report_row env filename filedata chain_name addr (PInt 0) w = (Inl IndexError, w)) \<and>
     (\<forall>all_reports files w reports w'.
        parse_no_reports_report env all_reports files w = (Inr reports, w') \<longrightarrow>
        (\<exists>lens c0 fd covered.
           index_files ([], [], []) files = Inr (lens, c0, fd) \<and>
           cover_reports c0 all_reports = Inr covered \<and>
           (\<forall>filename. (filename, []) \<in> set covered \<longrightarrow>
              (\<exists>n fl tx_list transaction.
                 map_of lens filename = Some n \<and> 0 < n \<and> map_of fd filename = Some fl \<and>
                 py_getitem fl (PStr ''transactions'') = Inr tx_list \<and> py_len tx_list = Inr n \<and>
                 py_getitem tx_list (PInt 0) = Inr transaction))))"
proof (intro conjI allI impI)
  fix n show "PInt 0 \<in> set (uncovered_indexs n [])" by (rule zero_uncovered)
next
  fix filename filedata chain_name addr and w :: 'a
  assume "py_getitem filedata (PStr ''transactions'') = Inr (PList [])"
  then show "no_report_row env filename filedata chain_name addr (PInt 0) w = (Inl IndexError, w)"
    by (simp add: no_report_row_def io_bind_def io_lift_def seq_index_def)
next
  fix all_reports files reports and w w' :: 'a
  assume run: "parse_no_reports_report env all_reports files w = (Inr reports, w')"
  then obtain lens c0 fd covered r1 where
    i: "index_files ([], [], []) files = Inr (lens, c0, fd)" and
    c: "cover_reports c0 all_reports = Inr covered" and
    n: "no_report_files env lens fd [] covered w = (Inr r1, w')"
    unfolding parse_no_reports_report_def
    by (auto simp: io_bind_Inr io_lift_eq io_ret_eq)
  have "\<exists>n fl tx_list transaction.
          map_of lens filename = Some n \<and> 0 < n \<and> map_of fd filename = Some fl \<and>
          py_getitem fl (PStr ''transactions'') = Inr tx_list \<and> py_len tx_list = Inr n \<and>
          py_getitem tx_list (PInt 0) = Inr transaction"
    if mem: "(filename, []) \<in> set covered" for filename
  proof -
    from no_report_files_each[OF n mem] obtain r1 w1 r2 w2 where
      "no_report_file env lens fd r1 (filename, []) w1 = (Inr r2, w2)" by blast
    from no_report_file_reads[OF this assms] obtain fl tx_list transaction where
      f: "map_of fd filename = Some fl" "py_getitem fl (PStr ''transactions'') = Inr tx_list"
         "py_getitem tx_list (PInt 0) = Inr transaction" by blast
    from index_then_cover(2)[OF i c mem] f obtain n where
      l: "map_of lens filename = Some n" "py_len tx_list = Inr n" by auto
    from getitem_zero_len[OF f(3) l(2)] have "0 < n" .
    with f l show ?thesis by blast
  qed
  with i c show "\<exists>lens c0 fd covered.
           index_files ([], [], []) files = Inr (lens, c0, fd) \<and>
           cover_reports c0 all_reports = Inr covered \<and>
           (\<forall>filename. (filename, []) \<in> set covered \<longrightarrow>
              (\<exists>n fl tx_list transaction.
                 map_of lens filename = Some n \<and> 0 < n \<and> map_of fd filename = Some fl \<and>
                 py_getitem fl (PStr ''transactions'') = Inr tx_list \<and> py_len tx_list = Inr n \<and>
                 py_getitem tx_list (PInt 0) = Inr transaction))"
    by blast
qed

lemma demo_env_sel [simp]:
  "ext_call demo_env = (\<lambda>name args. io_ret (PStr name))"
  "ext_method demo_env = (\<lambda>obj name args. io_ret (PStr name))"
  "ext_attr demo_env = (\<lambda>obj name. io_ret (PStr name))"
  "str_other demo_env = (\<lambda>v. ''?'')"
  "json_dumps demo_env = (\<lambda>v indent. Inr ''{}'')"
  "int_of_str demo_env = (\<lambda>s. if s = ''1'' then Some 1 else if s = ''0'' then Some 0 else None)"
  "set_iter demo_env = (\<lambda>s. s)"
  by (simp_all add: demo_env_def)

lemma demo_empty_run:
  "parse_no_reports_report demo_env [] [demo_file ''BIPs/empty.json'' []] () = (Inl IndexError, ())"
  by (simp add: parse_no_reports_report_def demo_file_def dict_setitem_def io_bind_def io_lift_def
      io_ret_def no_report_file_def uncovered_indexs_def symmetric_difference_def set_of_range_def
      no_report_row_def seq_index_def Let_def)

lemma demo_one_run:
  "\<exists>r. parse_no_reports_report demo_env [] [demo_file ''BIPs/one.json'' [demo_tx ''foo'']] () = (Inr r, ())"
  by (simp add: parse_no_reports_report_def demo_file_def demo_tx_def dict_setitem_def io_bind_def io_lift_def
      io_ret_def no_report_file_def uncovered_indexs_def symmetric_difference_def set_of_range_def
      no_report_row_def seq_index_def py_str_def Let_def)

theorem parse_no_reports_report_reads_index_zero_witness:
  "(\<forall>s. set (set_iter (demo_env :: unit env) s) = set s) \<and>
   no_report_row demo_env (PStr ''BIPs/empty.json'') (demo_file ''BIPs/empty.json'' [])
     (PStr ''mainnet'') (PObj 0) (PInt 0) () = (Inl IndexError, ()) \<and>
   parse_no_reports_report demo_env [] [demo_file ''BIPs/empty.json'' []] () = (Inl IndexError, ()) \<and>
   (\<exists>r. parse_no_reports_report demo_env [] [demo_file ''BIPs/one.json'' [demo_tx ''foo'']] () = (Inr r, ()))"
proof -
  have it: "\<forall>s. set (set_iter (demo_env :: unit env) s) = set s" by simp
  have tx: "py_getitem (demo_file ''BIPs/empty.json'' []) (PStr ''transactions'') = Inr (PList [])"
    by (simp add: demo_file_def)
  note inst = parse_no_reports_report_reads_index_zero[of "demo_env :: unit env", OF it]
  from inst[THEN conjunct2, THEN conjunct1, rule_format, OF tx]
  have "no_report_row demo_env (PStr ''BIPs/empty.json'') (demo_file ''BIPs/empty.json'' [])
     (PStr ''mainnet'') (PObj 0) (PInt 0) () = (Inl IndexError, ())" .
  then show ?thesis using it demo_empty_run demo_one_run by blast
qed

subsection \<open>\<open>handler\<close> runs in list order\<close>

lemma io_bind_ret [simp]: "io_bind (io_ret x) f = f x"
  by (rule ext) (simp add: io_bind_def io_ret_def)

lemma io_bind_ret_right [simp]: "io_bind m io_ret = m"
  by (rule ext) (auto simp: io_bind_def io_ret_def split: prod.splits sum.splits)

lemma io_bind_assoc: "io_bind (io_bind m f) g = io_bind m (\<lambda>x. io_bind (f x) g)"
  by (rule ext) (auto simp: io_bind_def split: prod.splits sum.splits)

lemma handler_txs_step:
  "handler_txs env handler_func file (tx # rest) i outputs =
     io_bind (classify_at env handler_func file (i, tx)) (\<lambda>data.
       handler_txs env handler_func file rest (Suc i)
         (if truthy data then outputs @ [data] else outputs))"
  by (simp add: classify_at_def io_bind_assoc)

lemma append_if_last:
  "(if c then xs @ [d] else xs) @ ys = xs @ (if c then d # ys else ys)"
  by simp

lemma handler_txs_in_order:
  "handler_txs env handler_func file txs i outputs =
     io_bind (in_order (classify_at env handler_func file) (zip [i..<i + length txs] txs))
       (\<lambda>ds. io_ret (outputs @ filter truthy ds))"
proof (induction txs arbitrary: i outputs)
  case Nil
  then show ?case by simp
next
  case (Cons tx rest)
  have "[i..<i + length (tx # rest)] = i # [Suc i..<Suc i + length rest]"
    by (subst upt_rec) (simp del: upt_Suc)
  then have z: "zip [i..<i + length (tx # rest)] (tx # rest) = (i, tx) # zip [Suc i..<Suc i + length rest] rest"
    by (simp del: upt_Suc)
  have "handler_txs env handler_func file (tx # rest) i outputs =
     io_bind (classify_at env handler_func file (i, tx)) (\<lambda>data.
       io_bind (in_order (classify_at env handler_func file) (zip [Suc i..<Suc i + length rest] rest))
         (\<lambda>ds. io_ret ((if truthy data then outputs @ [data] else outputs) @ filter truthy ds)))"
    unfolding handler_txs_step Cons.IH ..
  also have "\<dots> = io_bind (in_order (classify_at env handler_func file) ((i, tx) # zip [Suc i..<Suc i + length rest] rest))
       (\<lambda>ds. io_ret (outputs @ filter truthy ds))"
    by (simp add: io_bind_assoc append_if_last del: upt_Suc)
  finally show ?case unfolding z .
qed

lemma io_lift_bind: "io_bind (io_lift (ebind m f)) g = io_bind (io_lift m) (\<lambda>x. io_bind (io_lift (f x)) g)"
  by (rule ext) (cases m; simp add: io_bind_def io_lift_def)

lemma io_lift_Inr [simp]: "io_lift (Inr x) = io_ret x"
  by (rule ext) (simp add: io_lift_def io_ret_def)

lemma io_lift_ebind: "io_lift (ebind m f) = io_bind (io_lift m) (\<lambda>x. io_lift (f x))"
  by (rule ext) (cases m; simp add: io_bind_def io_lift_def)

lemma if_io_bind: "io_bind (if c then a else b) f = (if c then io_bind a f else io_bind b f)"
  by simp

lemma handler_file_entry:
  "handler_file env handler_func reports file =
     io_bind (file_entry env handler_func file) (\<lambda>e. io_ret (store_entry reports e))"
  unfolding handler_file_def file_entry_def positions_def
  by (simp add: handler_txs_in_order[where i=0 and outputs="[]", simplified]
      io_bind_assoc if_io_bind dict_setitem_def io_lift_ebind cong: if_cong)

lemma handler_files_in_order:
  "handler_files env handler_func reports files =
     io_bind (in_order (file_entry env handler_func) files)
       (\<lambda>es. io_ret (foldl store_entry reports es))"
proof (induction files arbitrary: reports)
  case Nil
  then show ?case by simp
next
  case (Cons fl rest)
  show ?case
    by (simp add: handler_file_entry Cons.IH io_bind_assoc)
qed

text \<open>
  Claim C7.  \<open>handler\<close> processes the files one at a time in list order, and within a file
  the transactions one at a time in list order (\<open>file_entry\<close>, \<open>in_order\<close>); the classifier
  is invoked with \<open>tx_index\<close> equal to the zero-based position of the transaction
  (\<open>classify_at\<close> on \<open>positions\<close>), and the outputs collected for a file are the truthy
  results in that same order.
\<close>

theorem handler_runs_in_list_order:
  "handler env files handler_func =
     io_bind (in_order (file_entry env handler_func) files)
       (\<lambda>es. io_ret (PDict (foldl store_entry [] es)))"
  by (simp add: handler_def handler_files_in_order io_bind_assoc)


end
